theory Spec2Isabelle
  imports Complex_Main "HOL-Library.Word"
begin

unbundle bit_operations_syntax

section \<open>Data model\<close>

text \<open>
  A JavaScript string is a sequence of UTF-16 code units. Typed arrays ignore a store
  outside their bounds and read \<open>undefined\<close> there, which the bitwise operators of the
  source turn into 0. A number that enters a bitwise operator is a \<open>32 word\<close>
  (the operator's own conversion to 32 bits); counts, lengths and indices are \<open>nat\<close>.
\<close>

type_synonym js_string = "nat list"

definition js_of_string :: "string \<Rightarrow> js_string" where
  "js_of_string s = map of_char s"

datatype error = Error string

subsection \<open>BitArray\<close>

record BitArray =
  ba_length :: nat
  ba_bits :: "32 word list"

definition ceil_div :: "nat \<Rightarrow> nat \<Rightarrow> nat" where
  "ceil_div n d = (n + d - 1) div d"

definition makeArray :: "nat \<Rightarrow> 32 word list" where
  "makeArray n = replicate (ceil_div n 32) 0"

definition new_BitArray :: "nat \<Rightarrow> BitArray" where
  "new_BitArray n = \<lparr>ba_length = n, ba_bits = makeArray n\<rparr>"

text \<open>\<open>Math.ceil(length / LOAD_FACTOR)\<close> with \<open>LOAD_FACTOR = 0.75\<close>.\<close>

definition ba_alloc :: "nat \<Rightarrow> BitArray \<Rightarrow> BitArray" where
  "ba_alloc n b =
     (let bits = ba_bits b in
      if n > length bits * 32
      then (let array = makeArray (ceil_div (4 * n) 3)
            in \<lparr>ba_length = n, ba_bits = bits @ drop (length bits) array\<rparr>)
      else b\<lparr>ba_length := n\<rparr>)"

definition ba_set :: "nat \<Rightarrow> BitArray \<Rightarrow> BitArray" where
  "ba_set index b =
     (let bits = ba_bits b; off = index div 32 in
      if off < length bits
      then b\<lparr>ba_bits := bits[off := (bits ! off) OR push_bit (index mod 32) 1]\<rparr>
      else b)"

definition ba_get :: "BitArray \<Rightarrow> nat \<Rightarrow> bool" where
  "ba_get b index =
     (let bits = ba_bits b; off = index div 32 in
      off < length bits \<and> bit (bits ! off) (index mod 32))"

definition ba_byteLength :: "BitArray \<Rightarrow> nat" where
  "ba_byteLength b = ceil_div (ba_length b) 8"

text \<open>
  The loop of \<open>append(value, length)\<close> for a number: \<open>i\<close> runs from \<open>length - 1\<close>
  down to 0, the write position \<open>index\<close> goes up.
\<close>

fun append_loop :: "32 word \<Rightarrow> nat \<Rightarrow> nat \<Rightarrow> BitArray \<Rightarrow> BitArray" where
  "append_loop v 0 index b = b"
| "append_loop v (Suc i) index b =
     append_loop v i (Suc index) (if bit v (i mod 32) then ba_set index b else b)"

definition ba_append :: "32 word \<Rightarrow> nat \<Rightarrow> BitArray \<Rightarrow> BitArray" where
  "ba_append v n b = (let index = ba_length b in append_loop v n index (ba_alloc (index + n) b))"

fun append_array_loop :: "BitArray \<Rightarrow> nat \<Rightarrow> nat \<Rightarrow> nat \<Rightarrow> BitArray \<Rightarrow> BitArray" where
  "append_array_loop v i 0 index b = b"
| "append_array_loop v i (Suc k) index b =
     append_array_loop v (Suc i) k (Suc index) (if ba_get v i then ba_set index b else b)"

definition ba_append_array :: "BitArray \<Rightarrow> BitArray \<Rightarrow> BitArray" where
  "ba_append_array v b =
     (let index = ba_length b; n = ba_length v
      in append_array_loop v 0 n index (ba_alloc (index + n) b))"

definition ba_to_list :: "BitArray \<Rightarrow> bool list" where
  "ba_to_list b = map (ba_get b) [0 ..< ba_length b]"


text \<open>
  \<open>xor(mask)\<close>: the loop index runs over the first \<open>min(length, mask.length)\<close> entries
  of the two word arrays, where both lengths count bits; an index past the end of either array
  reads \<open>undefined\<close> and stores nothing.
\<close>

fun xor_loop :: "nat \<Rightarrow> nat \<Rightarrow> 32 word list \<Rightarrow> 32 word list \<Rightarrow> 32 word list" where
  "xor_loop i 0 bits maskBits = bits"
| "xor_loop i (Suc k) bits maskBits =
     xor_loop (Suc i) k
       (if i < length bits
        then bits[i := (bits ! i) XOR (if i < length maskBits then maskBits ! i else 0)]
        else bits) maskBits"

definition ba_xor :: "BitArray \<Rightarrow> BitArray \<Rightarrow> BitArray" where
  "ba_xor other b =
     b\<lparr>ba_bits := xor_loop 0 (min (ba_length b) (ba_length other)) (ba_bits b) (ba_bits other)\<rparr>"

text \<open>The bits of the array read as one number, the first bit highest.\<close>

definition ba_value :: "BitArray \<Rightarrow> 32 word" where
  "ba_value b = foldl (\<lambda>acc x. push_bit 1 acc OR (if x then 1 else 0)) 0 (ba_to_list b)"

subsection \<open>utils\<close>

text \<open>\<open>hammingWeight\<close>: \<open>>>\<close> is the sign-propagating shift of a 32-bit value.\<close>

definition hammingWeight :: "32 word \<Rightarrow> 32 word" where
  "hammingWeight value0 =
     (let value1 = value0 - (signed_drop_bit 1 value0 AND 0x55555555);
          value2 = (value1 AND 0x33333333) + (signed_drop_bit 2 value1 AND 0x33333333)
      in signed_drop_bit 24 (((value2 + signed_drop_bit 4 value2) AND 0xf0f0f0f) * 0x1010101))"

text \<open>\<open>findMSBSet(value) = 32 - Math.clz32(value)\<close>.\<close>

fun msb_below :: "nat \<Rightarrow> 32 word \<Rightarrow> nat" where
  "msb_below 0 v = 0"
| "msb_below (Suc n) v = (if bit v n then Suc n else msb_below n v)"

definition findMSBSet :: "32 word \<Rightarrow> nat" where
  "findMSBSet v = msb_below 32 v"

text \<open>
  The shift operators take their count modulo 32. The loop of \<open>calculateBCHCode\<close> does not
  end when \<open>poly\<close> is 0, which is the value \<open>None\<close>.
\<close>

definition shl :: "32 word \<Rightarrow> int \<Rightarrow> 32 word" where
  "shl v n = push_bit (nat (n mod 32)) v"

partial_function (option) bch_loop :: "32 word \<Rightarrow> 32 word \<Rightarrow> nat \<Rightarrow> 32 word option" where
  "bch_loop v poly msbSetInPoly =
     (if findMSBSet v \<ge> msbSetInPoly
      then bch_loop (v XOR shl poly (int (findMSBSet v) - int msbSetInPoly)) poly msbSetInPoly
      else Some v)"

declare bch_loop.simps [code]

definition calculateBCHCode :: "32 word \<Rightarrow> 32 word \<Rightarrow> 32 word option" where
  "calculateBCHCode v poly =
     (let msbSetInPoly = findMSBSet poly
      in bch_loop (shl v (int msbSetInPoly - 1)) poly msbSetInPoly)"

subsection \<open>ECLevel and FormatInfo\<close>

datatype ECLevel = L | M | Q | H

fun ecl_bits :: "ECLevel \<Rightarrow> 32 word" where
  "ecl_bits L = 0x01"
| "ecl_bits M = 0x00"
| "ecl_bits Q = 0x03"
| "ecl_bits H = 0x02"

fun ecl_level :: "ECLevel \<Rightarrow> nat" where
  "ecl_level L = 0"
| "ecl_level M = 1"
| "ecl_level Q = 2"
| "ecl_level H = 3"

definition VALUES_TO_ECLEVEL :: "(32 word \<times> ECLevel) list" where
  "VALUES_TO_ECLEVEL = [(0x01, L), (0x00, M), (0x03, Q), (0x02, H)]"

definition fromECLevelBits :: "32 word \<Rightarrow> error + ECLevel" where
  "fromECLevelBits bits =
     (case map_of VALUES_TO_ECLEVEL bits of
        Some ecLevel \<Rightarrow> Inr ecLevel
      | None \<Rightarrow> Inl (Error ''illegal error correction bits''))"

definition FORMAT_INFO_DECODE_TABLE :: "(32 word \<times> 32 word) list" where
  "FORMAT_INFO_DECODE_TABLE =
    [(0x5412, 0x00), (0x5125, 0x01), (0x5e7c, 0x02), (0x5b4b, 0x03),
     (0x45f9, 0x04), (0x40ce, 0x05), (0x4f97, 0x06), (0x4aa0, 0x07),
     (0x77c4, 0x08), (0x72f3, 0x09), (0x7daa, 0x0a), (0x789d, 0x0b),
     (0x662f, 0x0c), (0x6318, 0x0d), (0x6c41, 0x0e), (0x6976, 0x0f),
     (0x1689, 0x10), (0x13be, 0x11), (0x1ce7, 0x12), (0x19d0, 0x13),
     (0x0762, 0x14), (0x0255, 0x15), (0x0d0c, 0x16), (0x083b, 0x17),
     (0x355f, 0x18), (0x3068, 0x19), (0x3f31, 0x1a), (0x3a06, 0x1b),
     (0x24b4, 0x1c), (0x2183, 0x1d), (0x2eda, 0x1e), (0x2bed, 0x1f)]"

record FormatInfo =
  fi_mask :: "32 word"
  fi_level :: ECLevel

definition new_FormatInfo :: "32 word \<Rightarrow> error + FormatInfo" where
  "new_FormatInfo formatInfo =
     (case fromECLevelBits (signed_drop_bit 3 formatInfo AND 0x03) of
        Inl e \<Rightarrow> Inl e
      | Inr level \<Rightarrow> Inr \<lparr>fi_mask = formatInfo AND 0x07, fi_level = level\<rparr>)"

text \<open>
  The loop of \<open>decodeFormatInfo\<close> over the table: \<open>Inl\<close> is the early return on an exact
  match, \<open>Inr\<close> the pair \<open>(bestDiff, bestFormatInfo)\<close> after the last entry. The Hamming
  weights are compared as signed 32-bit numbers.
\<close>

fun decodeFormatInfo_loop ::
  "(32 word \<times> 32 word) list \<Rightarrow> 32 word \<Rightarrow> 32 word \<Rightarrow> int \<times> 32 word \<Rightarrow> 32 word + int \<times> 32 word"
where
  "decodeFormatInfo_loop [] formatInfo1 formatInfo2 best = Inr best"
| "decodeFormatInfo_loop ((maskedFormatInfo, formatInfo) # table) formatInfo1 formatInfo2 best =
     (if formatInfo1 = maskedFormatInfo \<or> formatInfo2 = maskedFormatInfo then Inl formatInfo
      else
        let bitsDiff1 = sint (hammingWeight (formatInfo1 XOR maskedFormatInfo));
            best1 = (if bitsDiff1 < fst best then (bitsDiff1, formatInfo) else best);
            best2 =
              (if formatInfo1 \<noteq> formatInfo2
               then (let bitsDiff2 = sint (hammingWeight (formatInfo2 XOR maskedFormatInfo))
                     in if bitsDiff2 < fst best1 then (bitsDiff2, formatInfo) else best1)
               else best1)
        in decodeFormatInfo_loop table formatInfo1 formatInfo2 best2)"

definition decodeFormatInfo :: "32 word \<Rightarrow> 32 word \<Rightarrow> error + FormatInfo" where
  "decodeFormatInfo formatInfo1 formatInfo2 =
     (case decodeFormatInfo_loop FORMAT_INFO_DECODE_TABLE formatInfo1 formatInfo2 (32, 0) of
        Inl formatInfo \<Rightarrow> new_FormatInfo formatInfo
      | Inr (bestDiff, bestFormatInfo) \<Rightarrow>
          if bestDiff \<le> 3 then new_FormatInfo bestFormatInfo
          else Inl (Error ''unable to decode format information''))"

definition FORMAT_INFO_POLY :: "32 word" where
  "FORMAT_INFO_POLY = 0x537"

definition FORMAT_INFO_MASK :: "32 word" where
  "FORMAT_INFO_MASK = 0x5412"

text \<open>
  \<open>makeFormatInfoBits(bits, ecLevel, mask)\<close> returns the updated \<open>bits\<close>; \<open>None\<close> stands
  for a BCH loop that does not end.
\<close>

definition makeFormatInfoBits :: "BitArray \<Rightarrow> ECLevel \<Rightarrow> 32 word \<Rightarrow> BitArray option" where
  "makeFormatInfoBits bits ecLevel maskNumber =
     (let formatInfo = shl (ecl_bits ecLevel) 3 OR maskNumber;
          bits1 = ba_append formatInfo 5 bits
      in case calculateBCHCode formatInfo FORMAT_INFO_POLY of
           None \<Rightarrow> None
         | Some bchCode \<Rightarrow>
             (let bits2 = ba_append bchCode 10 bits1;
                  maskBits = ba_append FORMAT_INFO_MASK 15 (new_BitArray 0)
              in Some (ba_xor maskBits bits2)))"

subsection \<open>Numeric segments\<close>

definition NUMERIC_CHARACTERS :: js_string where
  "NUMERIC_CHARACTERS = js_of_string ''0123456789''"

fun index_of :: "nat list \<Rightarrow> nat \<Rightarrow> nat option" where
  "index_of [] c = None"
| "index_of (x # xs) c = (if x = c then Some 0 else map_option Suc (index_of xs c))"

definition getNumericCode :: "nat \<Rightarrow> error + nat" where
  "getNumericCode c =
     (case index_of NUMERIC_CHARACTERS c of
        Some code \<Rightarrow> Inr code
      | None \<Rightarrow> Inl (Error ''illegal numeric character''))"

fun Numeric_encode_loop :: "nat list \<Rightarrow> BitArray \<Rightarrow> error + BitArray" where
  "Numeric_encode_loop [] bits = Inr bits"
| "Numeric_encode_loop [c1] bits =
     (case getNumericCode c1 of Inl e \<Rightarrow> Inl e
      | Inr code1 \<Rightarrow> Inr (ba_append (of_nat code1) 4 bits))"
| "Numeric_encode_loop [c1, c2] bits =
     (case getNumericCode c1 of Inl e \<Rightarrow> Inl e
      | Inr code1 \<Rightarrow>
     (case getNumericCode c2 of Inl e \<Rightarrow> Inl e
      | Inr code2 \<Rightarrow> Inr (ba_append (of_nat (code1 * 10 + code2)) 7 bits)))"
| "Numeric_encode_loop (c1 # c2 # c3 # rest) bits =
     (case getNumericCode c1 of Inl e \<Rightarrow> Inl e
      | Inr code1 \<Rightarrow>
     (case getNumericCode c2 of Inl e \<Rightarrow> Inl e
      | Inr code2 \<Rightarrow>
     (case getNumericCode c3 of Inl e \<Rightarrow> Inl e
      | Inr code3 \<Rightarrow>
        Numeric_encode_loop rest (ba_append (of_nat (code1 * 100 + code2 * 10 + code3)) 10 bits))))"

definition Numeric_encode :: "js_string \<Rightarrow> error + BitArray" where
  "Numeric_encode content = Numeric_encode_loop content (new_BitArray 0)"

subsection \<open>Terminator and padding\<close>

fun terminator_loop :: "nat \<Rightarrow> nat \<Rightarrow> BitArray \<Rightarrow> BitArray" where
  "terminator_loop 0 capacity bits = bits"
| "terminator_loop (Suc k) capacity bits =
     (if ba_length bits < capacity then terminator_loop k capacity (ba_append 0 1 bits) else bits)"

fun zero_loop :: "nat \<Rightarrow> BitArray \<Rightarrow> BitArray" where
  "zero_loop 0 bits = bits"
| "zero_loop (Suc k) bits = zero_loop k (ba_append 0 1 bits)"

fun padding_loop :: "nat \<Rightarrow> nat \<Rightarrow> BitArray \<Rightarrow> BitArray" where
  "padding_loop i 0 bits = bits"
| "padding_loop i (Suc k) bits =
     padding_loop (Suc i) k (ba_append (if odd i then 0x11 else 0xec) 8 bits)"

text \<open>
  \<open>appendTerminateBits(bits, numDataCodewords)\<close>. The last loop runs
  \<open>numDataCodewords - bits.byteLength\<close> times and not at all when that number is negative.
\<close>

definition appendTerminateBits :: "BitArray \<Rightarrow> nat \<Rightarrow> BitArray" where
  "appendTerminateBits bits numDataCodewords =
     (let capacity = numDataCodewords * 8;
          bits1 = terminator_loop 4 capacity bits;
          numBitsInLastByte = ba_length bits1 mod 8;
          bits2 = (if numBitsInLastByte > 0 then zero_loop (8 - numBitsInLastByte) bits1 else bits1);
          numPaddingCodewords = numDataCodewords - ba_byteLength bits2
      in padding_loop 0 numPaddingCodewords bits2)"

subsection \<open>BitSource and the ECI designator\<close>

record BitSource =
  bs_bytes :: "8 word list"
  bs_bitOffset :: nat
  bs_byteOffset :: nat

definition new_BitSource :: "8 word list \<Rightarrow> BitSource" where
  "new_BitSource bytes = \<lparr>bs_bytes = bytes, bs_bitOffset = 0, bs_byteOffset = 0\<rparr>"

definition byte_at :: "8 word list \<Rightarrow> nat \<Rightarrow> 32 word" where
  "byte_at bytes i = (if i < length bytes then ucast (bytes ! i) else 0)"

fun read_whole_bytes :: "8 word list \<Rightarrow> nat \<Rightarrow> 32 word \<Rightarrow> nat \<Rightarrow> nat \<times> 32 word \<times> nat" where
  "read_whole_bytes bytes n result byteOffset =
     (if n \<ge> 8
      then read_whole_bytes bytes (n - 8)
             (push_bit 8 result OR (byte_at bytes byteOffset AND 0xff)) (Suc byteOffset)
      else (n, result, byteOffset))"

declare read_whole_bytes.simps [simp del]

definition BitSource_read :: "nat \<Rightarrow> BitSource \<Rightarrow> 32 word \<times> BitSource" where
  "BitSource_read n source =
     (let bytes = bs_bytes source;
          (result1, n1, bitOffset1, byteOffset1) =
            (if bs_bitOffset source > 0
             then (let bitsLeft = 8 - bs_bitOffset source;
                       toRead = min n bitsLeft;
                       bitsToNotRead = bitsLeft - toRead;
                       m = push_bit bitsToNotRead (drop_bit (8 - toRead) (0xff :: 32 word));
                       bitOffset = bs_bitOffset source + toRead;
                       result = drop_bit bitsToNotRead (byte_at bytes (bs_byteOffset source) AND m)
                   in if bitOffset = 8 then (result, n - toRead, 0, Suc (bs_byteOffset source))
                      else (result, n - toRead, bitOffset, bs_byteOffset source))
             else (0, n, bs_bitOffset source, bs_byteOffset source));
          (result2, bitOffset2, byteOffset2) =
            (if n1 > 0
             then (let (n2, result, byteOffset) = read_whole_bytes bytes n1 result1 byteOffset1
                   in if n2 > 0
                      then (let bitsToNotRead = 8 - n2;
                                m = push_bit bitsToNotRead (drop_bit bitsToNotRead (0xff :: 32 word))
                            in (push_bit n2 result OR
                                  drop_bit bitsToNotRead (byte_at bytes byteOffset AND m),
                                bitOffset1 + n2, byteOffset))
                      else (result, bitOffset1, byteOffset))
             else (result1, bitOffset1, byteOffset1))
      in (result2, source\<lparr>bs_bitOffset := bitOffset2, bs_byteOffset := byteOffset2\<rparr>))"

definition BitSource_available :: "BitSource \<Rightarrow> int" where
  "BitSource_available source =
     8 * (int (length (bs_bytes source)) - int (bs_byteOffset source)) - int (bs_bitOffset source)"

definition parseECIValue :: "BitSource \<Rightarrow> error + 32 word \<times> BitSource" where
  "parseECIValue source =
     (let (firstByte, source1) = BitSource_read 8 source in
      if firstByte AND 0x80 = 0 then Inr (firstByte AND 0x7f, source1)
      else if firstByte AND 0xc0 = 0x80
      then (let (secondByte, source2) = BitSource_read 8 source1
            in Inr (push_bit 8 (firstByte AND 0x3f) OR secondByte, source2))
      else if firstByte AND 0xe0 = 0xc0
      then (let (secondThirdBytes, source2) = BitSource_read 16 source1
            in Inr (push_bit 16 (firstByte AND 0x1f) OR secondThirdBytes, source2))
      else Inl (Error ''''))"

subsection \<open>Charset and the built-in text encoder\<close>

datatype Charset =
    CP437 | ISO_8859_1 | ISO_8859_2 | ISO_8859_3 | ISO_8859_4 | ISO_8859_5 | ISO_8859_6
  | ISO_8859_7 | ISO_8859_8 | ISO_8859_9 | ISO_8859_10 | ISO_8859_11 | ISO_8859_13
  | ISO_8859_14 | ISO_8859_15 | ISO_8859_16 | SJIS | CP1250 | CP1251 | CP1252 | CP1256
  | UTF_16BE | UTF_8 | ASCII | BIG5 | GB18030 | EUC_KR

fun charset_values :: "Charset \<Rightarrow> nat list" where
  "charset_values CP437 = [0, 2]"
| "charset_values ISO_8859_1 = [1, 3]"
| "charset_values ISO_8859_2 = [4]"
| "charset_values ISO_8859_3 = [5]"
| "charset_values ISO_8859_4 = [6]"
| "charset_values ISO_8859_5 = [7]"
| "charset_values ISO_8859_6 = [8]"
| "charset_values ISO_8859_7 = [9]"
| "charset_values ISO_8859_8 = [10]"
| "charset_values ISO_8859_9 = [11]"
| "charset_values ISO_8859_10 = [12]"
| "charset_values ISO_8859_11 = [13]"
| "charset_values ISO_8859_13 = [15]"
| "charset_values ISO_8859_14 = [16]"
| "charset_values ISO_8859_15 = [17]"
| "charset_values ISO_8859_16 = [18]"
| "charset_values SJIS = [20]"
| "charset_values CP1250 = [21]"
| "charset_values CP1251 = [22]"
| "charset_values CP1252 = [23]"
| "charset_values CP1256 = [24]"
| "charset_values UTF_16BE = [25]"
| "charset_values UTF_8 = [26]"
| "charset_values ASCII = [27, 170]"
| "charset_values BIG5 = [28]"
| "charset_values GB18030 = [29]"
| "charset_values EUC_KR = [30]"

text \<open>
  \<open>for (const character of content)\<close> walks the string by code points: a high surrogate
  followed by a low surrogate is one character of two code units, every other code unit is
  a character of its own. \<open>character.charCodeAt(0)\<close> is the first code unit.
\<close>

definition is_high_surrogate :: "nat \<Rightarrow> bool" where
  "is_high_surrogate u \<longleftrightarrow> 0xD800 \<le> u \<and> u \<le> 0xDBFF"

definition is_low_surrogate :: "nat \<Rightarrow> bool" where
  "is_low_surrogate u \<longleftrightarrow> 0xDC00 \<le> u \<and> u \<le> 0xDFFF"

fun js_characters :: "js_string \<Rightarrow> js_string list" where
  "js_characters [] = []"
| "js_characters [u] = [[u]]"
| "js_characters (u # v # rest) =
     (if is_high_surrogate u \<and> is_low_surrogate v then [u, v] # js_characters rest
      else [u] # js_characters (v # rest))"

fun charCodeAt0 :: "js_string \<Rightarrow> nat" where
  "charCodeAt0 (u # rest) = u"
| "charCodeAt0 [] = 0"

definition getCharCodes :: "js_string \<Rightarrow> nat \<Rightarrow> 8 word list" where
  "getCharCodes content maxCode =
     map (\<lambda>character. let code = charCodeAt0 character
                       in of_nat (if code > maxCode then 63 else code))
       (js_characters content)"

text \<open>
  \<open>encode$1(content, charset)\<close>. \<open>TextEncoder\<close> belongs to the platform and is the
  parameter \<open>textEncoder\<close>.
\<close>

definition encode_builtin ::
  "(js_string \<Rightarrow> 8 word list) \<Rightarrow> js_string \<Rightarrow> Charset \<Rightarrow> error + 8 word list" where
  "encode_builtin textEncoder content charset =
     (if charset = ASCII then Inr (getCharCodes content 0x7f)
      else if charset = ISO_8859_1 then Inr (getCharCodes content 0xff)
      else if charset = UTF_8 then Inr (textEncoder content)
      else Inl (Error ''built-in encode only support ascii, utf-8 and iso-8859-1 charset''))"

subsection \<open>BitMatrix\<close>

record BitMatrix =
  bm_width :: nat
  bm_height :: nat
  bm_rowSize :: nat
  bm_bits :: "32 word list"

definition new_BitMatrix :: "nat \<Rightarrow> nat \<Rightarrow> BitMatrix" where
  "new_BitMatrix width height =
     (let rowSize = ceil_div width 32
      in \<lparr>bm_width = width, bm_height = height, bm_rowSize = rowSize,
          bm_bits = replicate (rowSize * height) 0\<rparr>)"

definition bm_offset :: "BitMatrix \<Rightarrow> nat \<Rightarrow> nat \<Rightarrow> nat" where
  "bm_offset m x y = y * bm_rowSize m + x div 32"

definition bm_set :: "nat \<Rightarrow> nat \<Rightarrow> BitMatrix \<Rightarrow> BitMatrix" where
  "bm_set x y m =
     (let off = bm_offset m x y; bits = bm_bits m in
      if off < length bits
      then m\<lparr>bm_bits := bits[off := (bits ! off) OR push_bit (x mod 32) 1]\<rparr>
      else m)"

definition bm_get :: "BitMatrix \<Rightarrow> nat \<Rightarrow> nat \<Rightarrow> bool" where
  "bm_get m x y =
     (let off = bm_offset m x y; bits = bm_bits m in
      off < length bits \<and> bit (bits ! off) (x mod 32))"

definition bm_flip :: "nat \<Rightarrow> nat \<Rightarrow> BitMatrix \<Rightarrow> BitMatrix" where
  "bm_flip x y m =
     (let off = bm_offset m x y; bits = bm_bits m in
      if off < length bits
      then m\<lparr>bm_bits := bits[off := (bits ! off) XOR push_bit (x mod 32) 1]\<rparr>
      else m)"

subsection \<open>Histogram binarization\<close>

definition LUMINANCE_BITS :: nat where "LUMINANCE_BITS = 5"
definition LUMINANCE_SHIFT :: nat where "LUMINANCE_SHIFT = 8 - LUMINANCE_BITS"
definition LUMINANCE_BUCKETS :: nat where "LUMINANCE_BUCKETS = 2 ^ LUMINANCE_BITS"

text \<open>
  The first loop of \<open>calculateBlackPoint\<close>: the state is
  \<open>(firstPeak, firstPeakSize, maxBucketCount)\<close>, \<open>x\<close> the index of the head of the list.
\<close>

fun firstPeak_loop :: "int list \<Rightarrow> nat \<Rightarrow> nat \<times> int \<times> int \<Rightarrow> nat \<times> int \<times> int" where
  "firstPeak_loop [] x s = s"
| "firstPeak_loop (b # bs) x (firstPeak, firstPeakSize, maxBucketCount) =
     firstPeak_loop bs (Suc x)
       (if b > firstPeakSize then x else firstPeak,
        if b > firstPeakSize then b else firstPeakSize,
        if b > maxBucketCount then b else maxBucketCount)"

text \<open>The second loop: the state is \<open>(secondPeak, secondPeakScore)\<close>.\<close>

fun secondPeak_loop :: "int list \<Rightarrow> nat \<Rightarrow> nat \<Rightarrow> nat \<times> int \<Rightarrow> nat \<times> int" where
  "secondPeak_loop [] x firstPeak s = s"
| "secondPeak_loop (b # bs) x firstPeak (secondPeak, secondPeakScore) =
     (let distanceToBiggest = int x - int firstPeak;
          score = b * distanceToBiggest * distanceToBiggest
      in secondPeak_loop bs (Suc x) firstPeak
           (if score > secondPeakScore then (x, score) else (secondPeak, secondPeakScore)))"

text \<open>
  The two peaks after the exchange that makes \<open>firstPeak\<close> the darker one, with
  \<open>maxBucketCount\<close>.
\<close>

definition dominantPeaks :: "int list \<Rightarrow> nat \<times> nat \<times> int" where
  "dominantPeaks buckets =
     (let (firstPeak, firstPeakSize, maxBucketCount) = firstPeak_loop buckets 0 (0, 0, 0);
          (secondPeak, secondPeakScore) = secondPeak_loop buckets 0 firstPeak (0, 0)
      in if firstPeak > secondPeak then (secondPeak, firstPeak, maxBucketCount)
         else (firstPeak, secondPeak, maxBucketCount))"

text \<open>
  The valley loop: \<open>x\<close> runs from \<open>secondPeak - 1\<close> down to \<open>firstPeak + 1\<close>; \<open>k\<close> counts
  the remaining iterations, the state is \<open>(bestValley, bestValleyScore)\<close>.
\<close>

fun valley_loop :: "int list \<Rightarrow> nat \<Rightarrow> nat \<Rightarrow> int \<Rightarrow> nat \<Rightarrow> nat \<Rightarrow> nat \<times> int \<Rightarrow> nat \<times> int" where
  "valley_loop buckets firstPeak secondPeak maxBucketCount x 0 s = s"
| "valley_loop buckets firstPeak secondPeak maxBucketCount x (Suc k) (bestValley, bestValleyScore) =
     (let fromFirst = int x - int firstPeak;
          score = fromFirst * fromFirst * (int secondPeak - int x) * (maxBucketCount - buckets ! x)
      in valley_loop buckets firstPeak secondPeak maxBucketCount (x - 1) k
           (if score > bestValleyScore then (x, score) else (bestValley, bestValleyScore)))"

definition calculateBlackPoint :: "int list \<Rightarrow> int" where
  "calculateBlackPoint buckets =
     (let (firstPeak, secondPeak, maxBucketCount) = dominantPeaks buckets in
      if int secondPeak - int firstPeak \<le> int (LUMINANCE_BUCKETS div 16) then - 1
      else (let (bestValley, bestValleyScore) =
                  valley_loop buckets firstPeak secondPeak maxBucketCount (secondPeak - 1)
                    (secondPeak - 1 - firstPeak) (secondPeak - 1, - 1)
            in int bestValley * 2 ^ LUMINANCE_SHIFT))"

text \<open>
  \<open>luminances\<close> is a \<open>Uint8Array\<close>: a read outside it is \<open>undefined\<close>, which counts in
  bucket 0 and is never below the black point.
\<close>

definition luminance_at :: "8 word list \<Rightarrow> nat \<Rightarrow> nat option" where
  "luminance_at luminances i = (if i < length luminances then Some (unat (luminances ! i)) else None)"

definition bucket_of :: "nat option \<Rightarrow> nat" where
  "bucket_of pixel = (case pixel of None \<Rightarrow> 0 | Some p \<Rightarrow> p div 2 ^ LUMINANCE_SHIFT)"

definition increment :: "nat \<Rightarrow> int list \<Rightarrow> int list" where
  "increment i buckets = (if i < length buckets then buckets[i := buckets ! i + 1] else buckets)"

definition sample_row :: "8 word list \<Rightarrow> nat \<Rightarrow> nat \<Rightarrow> nat \<Rightarrow> int list \<Rightarrow> int list" where
  "sample_row luminances width height y buckets =
     (let right = (width * 4) div 5;
          offset = ((height * y) div 5) * width
      in foldl (\<lambda>bs x. increment (bucket_of (luminance_at luminances (offset + x))) bs)
           buckets [width div 5 ..< right])"

definition sample_buckets :: "8 word list \<Rightarrow> nat \<Rightarrow> nat \<Rightarrow> int list" where
  "sample_buckets luminances width height =
     foldl (\<lambda>bs y. sample_row luminances width height y bs)
       (replicate LUMINANCE_BUCKETS 0) [1 ..< 5]"

definition is_below :: "nat option \<Rightarrow> int \<Rightarrow> bool" where
  "is_below pixel blackPoint = (case pixel of None \<Rightarrow> False | Some p \<Rightarrow> int p < blackPoint)"

definition threshold_all :: "8 word list \<Rightarrow> nat \<Rightarrow> nat \<Rightarrow> int \<Rightarrow> BitMatrix \<Rightarrow> BitMatrix" where
  "threshold_all luminances width height blackPoint matrix =
     foldl (\<lambda>m y.
        foldl (\<lambda>m' x. if is_below (luminance_at luminances (y * width + x)) blackPoint
                       then bm_set x y m' else m') m [0 ..< width])
       matrix [0 ..< height]"

text \<open>
  \<open>histogram(luminances, width, height)\<close>, which \<open>binarize\<close> returns as it is when
  \<open>width < 40\<close> or \<open>height < 40\<close>. The result is a sum so that a failure of the
  binarization can be stated; no path of the source throws.
\<close>

definition histogram :: "8 word list \<Rightarrow> nat \<Rightarrow> nat \<Rightarrow> error + BitMatrix" where
  "histogram luminances width height =
     (let matrix = new_BitMatrix width height;
          buckets = sample_buckets luminances width height;
          blackPoint = calculateBlackPoint buckets
      in if blackPoint > 0 then Inr (threshold_all luminances width height blackPoint matrix)
         else Inr matrix)"

subsection \<open>Symbol size\<close>








subsection \<open>Auxiliary notions for the statements\<close>

text \<open>The \<open>n\<close> low bits of a number, highest first, as \<open>append(value, n)\<close> writes them.\<close>

definition msb_bits :: "nat \<Rightarrow> 32 word \<Rightarrow> bool list" where
  "msb_bits n v = map (\<lambda>k. bit v ((n - 1 - k) mod 32)) [0 ..< n]"

text \<open>
  A bit array built by the constructor and \<open>append\<close> has room for its length and no bit set
  at or after its length.
\<close>

definition ba_wf :: "BitArray \<Rightarrow> bool" where
  "ba_wf b \<longleftrightarrow>
     ba_length b \<le> 32 * length (ba_bits b) \<and>
     list_all (\<lambda>i. \<not> ba_get b i) [ba_length b ..< 32 * length (ba_bits b)]"

definition pad_codewords :: "nat \<Rightarrow> bool list" where
  "pad_codewords p = concat (map (\<lambda>i. msb_bits 8 (if odd i then 0x11 else 0xec)) [0 ..< p])"

text \<open>
  What the format information claim says of one level and one mask number, apart from the
  decoding: the 15 bits that \<open>makeFormatInfoBits\<close> writes into an empty array, their BCH
  part, and the table entry.
\<close>

definition format_info_ok :: "ECLevel \<Rightarrow> 32 word \<Rightarrow> bool" where
  "format_info_ok ecLevel maskNumber =
     (let formatInfo = push_bit 3 (ecl_bits ecLevel) OR maskNumber in
      case (map_option (\<lambda>b. (ba_length b, ba_value b))
              (makeFormatInfoBits (new_BitArray 0) ecLevel maskNumber),
            calculateBCHCode formatInfo 0x537) of
        (Some (n, w), Some bchCode) \<Rightarrow>
          n = 15 \<and> w = (push_bit 10 formatInfo OR bchCode) XOR 0x5412 \<and>
          (w, formatInfo) \<in> set FORMAT_INFO_DECODE_TABLE \<and>
          new_FormatInfo formatInfo = Inr \<lparr>fi_mask = maskNumber, fi_level = ecLevel\<rparr>
      | _ \<Rightarrow> False)"

definition bits_of_string :: "string \<Rightarrow> bool list" where
  "bits_of_string s = map (\<lambda>c. c = CHR ''1'') s"

text \<open>Sample inputs of the concrete statements.\<close>

definition two_tone_image :: "8 word list" where
  "two_tone_image = concat (replicate 5 [100, 110, 100, 110, 100])"

section \<open>Bit arrays\<close>

lemma ba_set_length [simp]: "ba_length (ba_set i b) = ba_length b"
  by (simp add: ba_set_def Let_def)

lemma ba_set_size [simp]: "length (ba_bits (ba_set i b)) = length (ba_bits b)"
  by (simp add: ba_set_def Let_def)

lemma div_mod_32_eq: "i div 32 = j div 32 \<Longrightarrow> i mod 32 = j mod 32 \<Longrightarrow> i = (j::nat)"
  by (metis div_mult_mod_eq)

lemma bit_or_single:
  fixes w :: "32 word"
  assumes "m < 32"
  shows "bit (w OR push_bit n 1) m \<longleftrightarrow> bit w m \<or> m = n"
  using assms by (auto simp add: bit_or_iff bit_push_bit_iff bit_1_iff bit_exp_iff)

lemma ba_get_set:
  "ba_get (ba_set i b) j \<longleftrightarrow> ba_get b j \<or> (j = i \<and> i div 32 < length (ba_bits b))"
proof (cases "i div 32 < length (ba_bits b)")
  case True
  show ?thesis
  proof (cases "j div 32 = i div 32")
    case same: True
    have "ba_get (ba_set i b) j \<longleftrightarrow>
          bit ((ba_bits b ! (i div 32)) OR push_bit (i mod 32) 1) (j mod 32)"
      using True same by (simp add: ba_get_def ba_set_def Let_def)
    also have "\<dots> \<longleftrightarrow> bit (ba_bits b ! (i div 32)) (j mod 32) \<or> j mod 32 = i mod 32"
      by (rule bit_or_single) simp
    also have "\<dots> \<longleftrightarrow> ba_get b j \<or> j = i"
      using True same by (auto simp add: ba_get_def Let_def dest: div_mod_32_eq)
    finally show ?thesis using True by simp
  next
    case other: False
    then have "j \<noteq> i" by auto
    moreover have "ba_get (ba_set i b) j \<longleftrightarrow> ba_get b j"
      using True other by (simp add: ba_get_def ba_set_def Let_def)
    ultimately show ?thesis by simp
  qed
next
  case False
  then show ?thesis by (simp add: ba_set_def Let_def)
qed

lemma ba_alloc_length [simp]: "ba_length (ba_alloc n b) = n"
  by (simp add: ba_alloc_def Let_def)

lemma ceil_div_ge: "d > 0 \<Longrightarrow> n \<le> d * ceil_div n d"
proof -
  assume d: "d > 0"
  have "n + d - 1 = (n + d - 1) div d * d + (n + d - 1) mod d" by simp
  moreover have "(n + d - 1) mod d < d" using d by simp
  ultimately have "n + d - 1 < (n + d - 1) div d * d + d" by linarith
  then have "n \<le> (n + d - 1) div d * d" using d by linarith
  then show ?thesis by (simp add: ceil_div_def mult.commute)
qed

lemma ba_alloc_room: "n \<le> 32 * length (ba_bits (ba_alloc n b))"
proof (cases "n > length (ba_bits b) * 32")
  case True
  have "n \<le> 3 * ceil_div (4 * n) 3" using ceil_div_ge [of 3 "4 * n"] by simp
  then have "n \<le> ceil_div (4 * n) 3" by (simp add: ceil_div_def)
  also have "\<dots> \<le> 32 * ceil_div (ceil_div (4 * n) 3) 32" by (rule ceil_div_ge) simp
  finally have "n \<le> 32 * ceil_div (ceil_div (4 * n) 3) 32" .
  then show ?thesis using True by (simp add: ba_alloc_def Let_def makeArray_def)
next
  case False
  then show ?thesis by (simp add: ba_alloc_def Let_def)
qed

lemma ba_alloc_size: "length (ba_bits b) \<le> length (ba_bits (ba_alloc n b))"
  by (simp add: ba_alloc_def Let_def)

lemma ba_alloc_get [simp]: "ba_get (ba_alloc n b) j = ba_get b j"
proof (cases "n > length (ba_bits b) * 32")
  case True
  show ?thesis
  proof (cases "j div 32 < length (ba_bits b)")
    case True
    then show ?thesis by (simp add: ba_alloc_def ba_get_def Let_def nth_append)
  next
    case False
    then show ?thesis
      by (auto simp add: ba_alloc_def ba_get_def Let_def nth_append makeArray_def)
  qed
next
  case False
  then show ?thesis by (simp add: ba_alloc_def ba_get_def Let_def)
qed

lemma append_loop_length [simp]: "ba_length (append_loop v n idx b) = ba_length b"
  by (induction n arbitrary: idx b) simp_all

lemma append_loop_size [simp]: "length (ba_bits (append_loop v n idx b)) = length (ba_bits b)"
  by (induction n arbitrary: idx b) simp_all

lemma append_loop_get:
  assumes "idx + n \<le> 32 * length (ba_bits b)"
  shows "ba_get (append_loop v n idx b) j \<longleftrightarrow>
         ba_get b j \<or> (idx \<le> j \<and> j < idx + n \<and> bit v ((idx + n - 1 - j) mod 32))"
  using assms
proof (induction n arbitrary: idx b)
  case 0
  then show ?case by auto
next
  case (Suc n)
  let ?b = "if bit v (n mod 32) then ba_set idx b else b"
  have room: "idx div 32 < length (ba_bits b)" using Suc.prems by simp
  have "Suc idx + n \<le> 32 * length (ba_bits ?b)" using Suc.prems by simp
  from Suc.IH [OF this]
  have "ba_get (append_loop v (Suc n) idx b) j \<longleftrightarrow>
        ba_get ?b j \<or> (Suc idx \<le> j \<and> j < Suc idx + n \<and> bit v ((Suc idx + n - 1 - j) mod 32))"
    by simp
  also have "ba_get ?b j \<longleftrightarrow> ba_get b j \<or> (j = idx \<and> bit v (n mod 32))"
    using room by (simp add: ba_get_set)
  finally show ?case
    by (cases "j = idx") (auto simp add: le_Suc_eq)
qed

lemma ba_append_length [simp]: "ba_length (ba_append v n b) = ba_length b + n"
  by (simp add: ba_append_def Let_def)

lemma ba_wf_iff:
  "ba_wf b \<longleftrightarrow> ba_length b \<le> 32 * length (ba_bits b) \<and> (\<forall>i \<ge> ba_length b. \<not> ba_get b i)"
proof -
  have "\<not> ba_get b i" if "32 * length (ba_bits b) \<le> i" for i
  proof -
    from that have "length (ba_bits b) \<le> i div 32" by arith
    then show ?thesis by (simp add: ba_get_def Let_def)
  qed
  then show ?thesis
    unfolding ba_wf_def list_all_iff by (auto simp add: not_le)
qed

lemma ba_append_get:
  assumes "ba_wf b"
  shows "ba_get (ba_append v n b) j \<longleftrightarrow>
         (if j < ba_length b then ba_get b j
          else j < ba_length b + n \<and> bit v ((ba_length b + n - 1 - j) mod 32))"
proof -
  have "ba_length b + n \<le> 32 * length (ba_bits (ba_alloc (ba_length b + n) b))"
    by (rule ba_alloc_room)
  from append_loop_get [OF this]
  have "ba_get (ba_append v n b) j \<longleftrightarrow>
        ba_get b j \<or> (ba_length b \<le> j \<and> j < ba_length b + n
                         \<and> bit v ((ba_length b + n - 1 - j) mod 32))"
    by (simp add: ba_append_def Let_def)
  moreover have "\<not> ba_get b j" if "ba_length b \<le> j"
    using assms that by (simp add: ba_wf_iff)
  ultimately show ?thesis by auto
qed

lemma ba_append_wf:
  assumes "ba_wf b"
  shows "ba_wf (ba_append v n b)"
proof -
  have "ba_length (ba_append v n b) \<le> 32 * length (ba_bits (ba_append v n b))"
    using ba_alloc_room [of "ba_length b + n" b] by (simp add: ba_append_def Let_def)
  moreover have "\<not> ba_get (ba_append v n b) i" if "ba_length (ba_append v n b) \<le> i" for i
    using that by (simp add: ba_append_get [OF assms])
  ultimately show ?thesis by (simp add: ba_wf_iff)
qed

lemma ba_append_to_list:
  assumes "ba_wf b"
  shows "ba_to_list (ba_append v n b) = ba_to_list b @ msb_bits n v"
proof (rule nth_equalityI)
  show "length (ba_to_list (ba_append v n b)) = length (ba_to_list b @ msb_bits n v)"
    by (simp add: ba_to_list_def msb_bits_def)
next
  fix i
  assume "i < length (ba_to_list (ba_append v n b))"
  then have i: "i < ba_length b + n" by (simp add: ba_to_list_def)
  show "ba_to_list (ba_append v n b) ! i = (ba_to_list b @ msb_bits n v) ! i"
  proof (cases "i < ba_length b")
    case True
    then show ?thesis
      using i by (simp add: ba_to_list_def nth_append ba_append_get [OF assms])
  next
    case False
    then have "ba_length b + n - 1 - i = n - 1 - (i - ba_length b)" using i by arith
    moreover have "i - ba_length b < n" using i False by arith
    ultimately show ?thesis
      using i False by (simp add: ba_to_list_def msb_bits_def nth_append ba_append_get [OF assms])
  qed
qed

lemma msb_bits_zero_1 [simp]: "msb_bits (Suc 0) 0 = [False]"
  by (simp add: msb_bits_def)

lemma terminator_loop_spec:
  assumes "ba_wf b"
  shows "ba_wf (terminator_loop k capacity b) \<and>
         ba_length (terminator_loop k capacity b) = ba_length b + min k (capacity - ba_length b) \<and>
         ba_to_list (terminator_loop k capacity b) =
           ba_to_list b @ replicate (min k (capacity - ba_length b)) False"
  using assms
proof (induction k arbitrary: b)
  case 0
  then show ?case by simp
next
  case (Suc k)
  show ?case
  proof (cases "ba_length b < capacity")
    case True
    have wf: "ba_wf (ba_append 0 1 b)" using Suc.prems by (rule ba_append_wf)
    have m: "min (Suc k) (capacity - ba_length b) = Suc (min k (capacity - (ba_length b + 1)))"
      using True by (auto simp add: min_def)
    show ?thesis
      using Suc.IH [OF wf] True
      by (simp add: m ba_append_to_list [OF Suc.prems] replicate_append_same)
  next
    case False
    then show ?thesis using Suc.prems by simp
  qed
qed

lemma zero_loop_spec:
  assumes "ba_wf b"
  shows "ba_wf (zero_loop k b) \<and> ba_length (zero_loop k b) = ba_length b + k \<and>
         ba_to_list (zero_loop k b) = ba_to_list b @ replicate k False"
  using assms
proof (induction k arbitrary: b)
  case 0
  then show ?case by simp
next
  case (Suc k)
  have wf: "ba_wf (ba_append 0 1 b)" using Suc.prems by (rule ba_append_wf)
  show ?case
    using Suc.IH [OF wf] by (simp add: ba_append_to_list [OF Suc.prems] replicate_append_same)
qed

lemma padding_loop_spec:
  assumes "ba_wf b"
  shows "ba_wf (padding_loop i k b) \<and> ba_length (padding_loop i k b) = ba_length b + 8 * k \<and>
         ba_to_list (padding_loop i k b) =
           ba_to_list b @ concat (map (\<lambda>j. msb_bits 8 (if odd j then 0x11 else 0xec)) [i ..< i + k])"
  using assms
proof (induction k arbitrary: i b)
  case 0
  then show ?case by simp
next
  case (Suc k)
  let ?f = "\<lambda>j. msb_bits 8 (if odd j then 0x11 else 0xec :: 32 word)"
  let ?b = "ba_append (if odd i then 0x11 else 0xec) 8 b"
  have wf: "ba_wf ?b" using Suc.prems by (rule ba_append_wf)
  have step: "concat (map ?f [i ..< i + Suc k]) = ?f i @ concat (map ?f [Suc i ..< Suc i + k])"
    by (simp add: upt_conv_Cons del: upt_Suc)
  have l: "ba_to_list ?b = ba_to_list b @ ?f i"
    by (simp add: ba_append_to_list [OF Suc.prems])
  have "padding_loop i (Suc k) b = padding_loop (Suc i) k ?b" by simp
  moreover note Suc.IH [OF wf, of "Suc i"]
  ultimately show ?case
    unfolding step by (simp only: l ba_append_length append_assoc) simp
qed

lemma below_8_cases:
  assumes "r < (8::nat)"
  shows "r = 0 \<or> r = 1 \<or> r = 2 \<or> r = 3 \<or> r = 4 \<or> r = 5 \<or> r = 6 \<or> r = 7"
  using assms by arith

lemma pad_arith_residue: "r < (8::nat) \<Longrightarrow> (r + (8 - r) mod 8) mod 8 = 0"
  using below_8_cases [of r] by auto

lemma pad_arith_aligned: "((a::nat) + (8 - a mod 8) mod 8) mod 8 = 0"
proof -
  have "(a + (8 - a mod 8) mod 8) mod 8 = (a mod 8 + (8 - a mod 8) mod 8) mod 8"
    by (simp add: mod_add_left_eq)
  also have "\<dots> = 0" by (rule pad_arith_residue) simp
  finally show ?thesis .
qed

lemma pad_arith_le:
  assumes "(a::nat) \<le> 8 * n"
  shows "a + (8 - a mod 8) mod 8 \<le> 8 * n"
proof -
  define z where "z = (8 - a mod 8) mod 8"
  have "(a + z) mod 8 = 0" unfolding z_def by (rule pad_arith_aligned)
  then have "8 dvd a + z" by (simp add: mod_eq_0_iff_dvd)
  then obtain k where k: "a + z = 8 * k" by (elim dvdE)
  have "z < 8" by (simp add: z_def)
  with k assms have "k \<le> n" by arith
  with k show ?thesis by (simp add: z_def)
qed

lemma ceil_div_8_mult: "ceil_div (8 * n) 8 = n"
proof -
  have "(8 * n + 7) div 8 = n" by arith
  then show ?thesis by (simp add: ceil_div_def)
qed

lemma ceil_div_8_aligned:
  assumes "(c::nat) mod 8 = 0"
  shows "ceil_div c 8 = c div 8"
proof -
  from assms have "8 dvd c" by (simp add: mod_eq_0_iff_dvd)
  then obtain k where "c = 8 * k" by (elim dvdE)
  then show ?thesis by (simp add: ceil_div_8_mult)
qed

lemma pad_arith_total:
  assumes "(c::nat) mod 8 = 0" and "c \<le> 8 * n"
  shows "c + 8 * (n - c div 8) = 8 * n"
proof -
  from assms(1) have "8 dvd c" by (simp add: mod_eq_0_iff_dvd)
  then obtain k where k: "c = 8 * k" by (elim dvdE)
  with assms(2) have "k \<le> n" by simp
  then have "8 * k + 8 * (n - k) = 8 * n" by arith
  with k show ?thesis by simp
qed

section \<open>Terminator and padding\<close>

text \<open>
  C10: for every well-formed bit array whose length is at most \<open>8 * numDataCodewords\<close>,
  \<open>appendTerminateBits\<close> appends \<open>t\<close> terminator zeros, at most four and no more than fit,
  then \<open>z\<close> zeros up to the next byte boundary, then the pad codewords 0xEC, 0x11, 0xEC, ...
  for the remaining \<open>p\<close> codewords; the result has exactly \<open>8 * numDataCodewords\<close> bits,
  that is \<open>numDataCodewords\<close> bytes.
\<close>

theorem appendTerminateBits_fills:
  assumes "ba_wf bits" and "ba_length bits \<le> 8 * numDataCodewords"
  shows "\<exists>t z p.
           t = min 4 (8 * numDataCodewords - ba_length bits) \<and>
           z = (8 - (ba_length bits + t) mod 8) mod 8 \<and>
           p = numDataCodewords - (ba_length bits + t + z) div 8 \<and>
           ba_to_list (appendTerminateBits bits numDataCodewords) =
             ba_to_list bits @ replicate t False @ replicate z False @ pad_codewords p \<and>
           ba_length (appendTerminateBits bits numDataCodewords) = 8 * numDataCodewords \<and>
           ba_byteLength (appendTerminateBits bits numDataCodewords) = numDataCodewords"
proof -
  define t where "t = min 4 (8 * numDataCodewords - ba_length bits)"
  define a where "a = ba_length bits + t"
  define z where "z = (8 - a mod 8) mod 8"
  define p where "p = numDataCodewords - (a + z) div 8"
  define bits1 where "bits1 = terminator_loop 4 (numDataCodewords * 8) bits"
  define bits2 where
    "bits2 = (if ba_length bits1 mod 8 > 0 then zero_loop (8 - ba_length bits1 mod 8) bits1 else bits1)"
  have r: "appendTerminateBits bits numDataCodewords =
             padding_loop 0 (numDataCodewords - ba_byteLength bits2) bits2"
    by (simp add: appendTerminateBits_def Let_def bits1_def bits2_def)
  from terminator_loop_spec [OF assms(1), of 4 "numDataCodewords * 8"]
  have b1: "ba_wf bits1" "ba_length bits1 = a"
    "ba_to_list bits1 = ba_to_list bits @ replicate t False"
    by (simp_all add: bits1_def t_def a_def mult.commute)
  have b2: "ba_wf bits2 \<and> ba_length bits2 = a + z \<and>
    ba_to_list bits2 = ba_to_list bits1 @ replicate z False"
  proof (cases "a mod 8 > 0")
    case True
    then have "z = 8 - a mod 8" by (simp add: z_def)
    then show ?thesis using zero_loop_spec [OF b1(1), of "8 - a mod 8"] True
      by (simp add: bits2_def b1(2))
  next
    case False
    then have "z = 0" by (simp add: z_def)
    then show ?thesis using False b1 by (simp add: bits2_def)
  qed
  have le: "a \<le> 8 * numDataCodewords" using assms(2) by (simp add: t_def a_def)
  have al: "(a + z) mod 8 = 0" unfolding z_def by (rule pad_arith_aligned)
  have le2: "a + z \<le> 8 * numDataCodewords" unfolding z_def using le by (rule pad_arith_le)
  have bl: "ba_byteLength bits2 = (a + z) div 8"
    using ceil_div_8_aligned [OF al] b2 by (simp add: ba_byteLength_def)
  from padding_loop_spec [OF conjunct1 [OF b2], of 0 p]
  have fin: "ba_length (padding_loop 0 p bits2) = ba_length bits2 + 8 * p"
    "ba_to_list (padding_loop 0 p bits2) = ba_to_list bits2 @ pad_codewords p"
    by (simp_all add: pad_codewords_def)
  have len: "ba_length bits2 + 8 * p = 8 * numDataCodewords"
    using pad_arith_total [OF al le2] b2 by (simp add: p_def)
  have res: "appendTerminateBits bits numDataCodewords = padding_loop 0 p bits2"
    by (simp add: r bl p_def)
  have c1: "ba_to_list (appendTerminateBits bits numDataCodewords) =
      ba_to_list bits @ replicate t False @ replicate z False @ pad_codewords p"
    by (simp add: res fin(2) b2 b1(3))
  have c2: "ba_length (appendTerminateBits bits numDataCodewords) = 8 * numDataCodewords"
    by (simp add: res fin(1) len)
  have c3: "ba_byteLength (appendTerminateBits bits numDataCodewords) = numDataCodewords"
    by (simp add: ba_byteLength_def c2 ceil_div_8_mult)
  show ?thesis
  proof (intro exI conjI)
    show "t = min 4 (8 * numDataCodewords - ba_length bits)" by (rule t_def)
    show "z = (8 - (ba_length bits + t) mod 8) mod 8" by (simp add: z_def a_def)
    show "p = numDataCodewords - (ba_length bits + t + z) div 8" by (simp add: p_def a_def)
  qed (rule c1 c2 c3)+
qed


theorem appendTerminateBits_fills_witness:
  "ba_wf (ba_append 5 3 (new_BitArray 0)) \<and> ba_length (ba_append 5 3 (new_BitArray 0)) \<le> 8 * 3 \<and>
   ba_to_list (appendTerminateBits (ba_append 5 3 (new_BitArray 0)) 3) =
     [True, False, True] @ replicate 4 False @ replicate 1 False @ pad_codewords 2 \<and>
   ba_length (appendTerminateBits (ba_append 5 3 (new_BitArray 0)) 3) = 8 * 3"
proof -
  have wf: "ba_wf (ba_append 5 3 (new_BitArray 0))" by code_simp
  have le: "ba_length (ba_append 5 3 (new_BitArray 0)) \<le> 8 * 3" by (simp add: new_BitArray_def)
  have l: "ba_to_list (ba_append 5 3 (new_BitArray 0)) = [True, False, True]" by code_simp
  have n: "ba_length (new_BitArray 0) = 0" by (simp add: new_BitArray_def)
  from appendTerminateBits_fills [OF wf le] show ?thesis
    using wf le by (simp add: l n)
qed

section \<open>Numeric segment body of 01234567\<close>

text \<open>
  C6, as stated: encoding the numeric content 01234567 gives the bit string
  0000110001 0101011001 1000011. The code does not: the first group is the ten-bit
  binary form of 12, which is 0000001100.
\<close>

theorem numeric_01234567_claimed_bits_counterexample:
  "map_sum id ba_to_list (Numeric_encode (js_of_string ''01234567'')) \<noteq>
     Inr (bits_of_string ''000011000101010110011000011'')"
  by code_simp

text \<open>
  C6, amended: encoding the numeric content 01234567 gives the 27 bits
  0000001100 0101011001 1000011: ten bits for 012, ten bits for 345, seven bits for 67.
\<close>

theorem numeric_01234567_bits:
  "map_sum id ba_to_list (Numeric_encode (js_of_string ''01234567'')) =
     Inr (bits_of_string ''000000110001010110011000011'')"
  by code_simp

section \<open>Format information\<close>

lemma decodeFormatInfo_loop_exact:
  assumes "(w, fi) \<in> set table" and "distinct (map fst table)"
  shows "decodeFormatInfo_loop table w w best = Inl fi"
  using assms
proof (induction table arbitrary: best)
  case Nil
  then show ?case by simp
next
  case (Cons e table)
  obtain w' fi' where e: "e = (w', fi')" by (cases e)
  show ?case
  proof (cases "w' = w")
    case True
    with Cons.prems e have "fi' = fi" by (auto simp: image_iff)
    with True e show ?thesis by simp
  next
    case False
    with Cons.prems e have "(w, fi) \<in> set table" "distinct (map fst table)" by auto
    from Cons.IH [OF this] False e show ?thesis by (simp add: Let_def)
  qed
qed

lemma format_table_distinct: "distinct (map fst FORMAT_INFO_DECODE_TABLE)"
  by code_simp

lemma decodeFormatInfo_exact:
  assumes "(w, fi) \<in> set FORMAT_INFO_DECODE_TABLE"
  shows "decodeFormatInfo w w = new_FormatInfo fi"
  by (simp add: decodeFormatInfo_def
      decodeFormatInfo_loop_exact [OF assms format_table_distinct])

lemma format_info_ok_L:
  "format_info_ok L 0 \<and> format_info_ok L 1 \<and> format_info_ok L 2 \<and> format_info_ok L 3 \<and>
   format_info_ok L 4 \<and> format_info_ok L 5 \<and> format_info_ok L 6 \<and> format_info_ok L 7"
  by code_simp

lemma format_info_ok_M:
  "format_info_ok M 0 \<and> format_info_ok M 1 \<and> format_info_ok M 2 \<and> format_info_ok M 3 \<and>
   format_info_ok M 4 \<and> format_info_ok M 5 \<and> format_info_ok M 6 \<and> format_info_ok M 7"
  by code_simp

lemma format_info_ok_Q:
  "format_info_ok Q 0 \<and> format_info_ok Q 1 \<and> format_info_ok Q 2 \<and> format_info_ok Q 3 \<and>
   format_info_ok Q 4 \<and> format_info_ok Q 5 \<and> format_info_ok Q 6 \<and> format_info_ok Q 7"
  by code_simp

lemma format_info_ok_H:
  "format_info_ok H 0 \<and> format_info_ok H 1 \<and> format_info_ok H 2 \<and> format_info_ok H 3 \<and>
   format_info_ok H 4 \<and> format_info_ok H 5 \<and> format_info_ok H 6 \<and> format_info_ok H 7"
  by code_simp

lemma format_info_ok_each:
  assumes "m < (8::nat)"
  shows "format_info_ok ecLevel (of_nat m)"
proof -
  have all: "\<forall>w \<in> {0, 1, 2, 3, 4, 5, 6, 7}. format_info_ok ecLevel w"
    using format_info_ok_L format_info_ok_M format_info_ok_Q format_info_ok_H
    by (cases ecLevel) simp_all
  from below_8_cases [OF assms]
  have "(of_nat m :: 32 word) \<in> {0, 1, 2, 3, 4, 5, 6, 7}"
    by (elim disjE) simp_all
  with all show ?thesis by blast
qed

text \<open>
  C3: for every level and every mask number below 8, \<open>makeFormatInfoBits\<close> writes 15 bits
  into an empty array; read as a number they are the five bits \<open>level_bits << 3 | mask\<close>
  followed by the ten bits of their BCH code under 0x537, the whole XORed with 0x5412; this
  number stands in \<open>FORMAT_INFO_DECODE_TABLE\<close> beside \<open>level_bits << 3 | mask\<close>; and
  \<open>decodeFormatInfo\<close>, given the number in both places, returns the mask and the level.
\<close>

theorem format_info_word:
  assumes "m < (8::nat)"
  shows "\<exists>bits bchCode.
           makeFormatInfoBits (new_BitArray 0) ecLevel (of_nat m) = Some bits \<and>
           calculateBCHCode (push_bit 3 (ecl_bits ecLevel) OR of_nat m) 0x537 = Some bchCode \<and>
           ba_length bits = 15 \<and>
           ba_value bits =
             (push_bit 10 (push_bit 3 (ecl_bits ecLevel) OR of_nat m) OR bchCode) XOR 0x5412 \<and>
           (ba_value bits, push_bit 3 (ecl_bits ecLevel) OR of_nat m)
             \<in> set FORMAT_INFO_DECODE_TABLE \<and>
           decodeFormatInfo (ba_value bits) (ba_value bits) =
             Inr \<lparr>fi_mask = of_nat m, fi_level = ecLevel\<rparr>"
proof -
  define fi where "fi = push_bit 3 (ecl_bits ecLevel) OR (of_nat m :: 32 word)"
  from format_info_ok_each [OF assms, of ecLevel]
  obtain n w bchCode where
    made: "map_option (\<lambda>b. (ba_length b, ba_value b))
             (makeFormatInfoBits (new_BitArray 0) ecLevel (of_nat m)) = Some (n, w)"
    and bch: "calculateBCHCode fi 0x537 = Some bchCode"
    and n: "n = 15"
    and w: "w = (push_bit 10 fi OR bchCode) XOR 0x5412"
    and tab: "(w, fi) \<in> set FORMAT_INFO_DECODE_TABLE"
    and new: "new_FormatInfo fi = Inr \<lparr>fi_mask = of_nat m, fi_level = ecLevel\<rparr>"
    unfolding format_info_ok_def Let_def fi_def
    by (auto split: option.splits prod.splits)
  from made obtain bits where
    bits: "makeFormatInfoBits (new_BitArray 0) ecLevel (of_nat m) = Some bits"
      "ba_length bits = n" "ba_value bits = w"
    by auto
  have "decodeFormatInfo (ba_value bits) (ba_value bits) =
          Inr \<lparr>fi_mask = of_nat m, fi_level = ecLevel\<rparr>"
    using decodeFormatInfo_exact [OF tab] new bits(3) by simp
  with bits bch n w tab show ?thesis unfolding fi_def by blast
qed

theorem format_info_word_witness:
  "(5::nat) < 8 \<and>
   (\<exists>bits bchCode.
           makeFormatInfoBits (new_BitArray 0) Q (of_nat 5) = Some bits \<and>
           calculateBCHCode (push_bit 3 (ecl_bits Q) OR of_nat 5) 0x537 = Some bchCode \<and>
           ba_length bits = 15 \<and>
           ba_value bits =
             (push_bit 10 (push_bit 3 (ecl_bits Q) OR of_nat 5) OR bchCode) XOR 0x5412 \<and>
           (ba_value bits, push_bit 3 (ecl_bits Q) OR of_nat 5)
             \<in> set FORMAT_INFO_DECODE_TABLE \<and>
           decodeFormatInfo (ba_value bits) (ba_value bits) =
             Inr \<lparr>fi_mask = of_nat 5, fi_level = Q\<rparr>)"
proof -
  have h: "(5::nat) < 8" by simp
  show ?thesis by (rule conjI [OF h format_info_word [OF h]])
qed

section \<open>ECI designator\<close>

lemma and_single_bit:
  fixes w :: "32 word"
  shows "w AND 2 ^ n = (if bit w n then 2 ^ n else 0)"
  by (rule bit_eqI) (auto simp add: bit_and_iff bit_exp_iff)

lemma and_0x80: "(w :: 32 word) AND 0x80 = (if bit w 7 then 0x80 else 0)"
  using and_single_bit [of w 7] by simp

lemma and_0x40: "(w :: 32 word) AND 0x40 = (if bit w 6 then 0x40 else 0)"
  using and_single_bit [of w 6] by simp

lemma and_0x20: "(w :: 32 word) AND 0x20 = (if bit w 5 then 0x20 else 0)"
  using and_single_bit [of w 5] by simp

lemma and_0xc0: "(w :: 32 word) AND 0xc0 = (w AND 0x80) OR (w AND 0x40)"
proof -
  have "(0xc0 :: 32 word) = 0x80 OR 0x40" by simp
  then show ?thesis by (simp only: bit.conj_disj_distrib)
qed

lemma and_0xe0: "(w :: 32 word) AND 0xe0 = (w AND 0x80) OR (w AND 0x40) OR (w AND 0x20)"
proof -
  have "(0xe0 :: 32 word) = 0x80 OR 0x40 OR 0x20" by simp
  then show ?thesis by (simp only: bit.conj_disj_distrib)
qed

lemma prefix_0: "(w :: 32 word) AND 0x80 = 0 \<longleftrightarrow> \<not> bit w 7"
  by (simp add: and_0x80)

lemma prefix_10: "(w :: 32 word) AND 0xc0 = 0x80 \<longleftrightarrow> bit w 7 \<and> \<not> bit w 6"
  by (simp add: and_0xc0 and_0x80 and_0x40)

lemma prefix_110: "(w :: 32 word) AND 0xe0 = 0xc0 \<longleftrightarrow> bit w 7 \<and> bit w 6 \<and> \<not> bit w 5"
  by (simp add: and_0xe0 and_0x80 and_0x40 and_0x20)

lemma low_7: "(w :: 32 word) AND 0x7f = take_bit 7 w"
  by (simp add: take_bit_eq_mask mask_eq_exp_minus_1)

lemma low_6: "(w :: 32 word) AND 0x3f = take_bit 6 w"
  by (simp add: take_bit_eq_mask mask_eq_exp_minus_1)

lemma low_5: "(w :: 32 word) AND 0x1f = take_bit 5 w"
  by (simp add: take_bit_eq_mask mask_eq_exp_minus_1)

text \<open>
  C7: let \<open>firstByte\<close> be the eight bits that \<open>parseECIValue\<close> reads first. If its bit 7 is
  0, the value is its low 7 bits. If it begins with 10, the value is its low 6 bits followed
  by the next eight bits read. If it begins with 110, the value is its low 5 bits followed by
  the next sixteen bits read. If it begins with 111, \<open>parseECIValue\<close> throws.
\<close>

theorem parseECIValue_prefix:
  "(case BitSource_read 8 source of (firstByte, source1) \<Rightarrow>
     (\<not> bit firstByte 7 \<longrightarrow>
        parseECIValue source = Inr (take_bit 7 firstByte, source1)) \<and>
     (bit firstByte 7 \<and> \<not> bit firstByte 6 \<longrightarrow>
        parseECIValue source =
          (case BitSource_read 8 source1 of (secondByte, source2) \<Rightarrow>
             Inr (push_bit 8 (take_bit 6 firstByte) OR secondByte, source2))) \<and>
     (bit firstByte 7 \<and> bit firstByte 6 \<and> \<not> bit firstByte 5 \<longrightarrow>
        parseECIValue source =
          (case BitSource_read 16 source1 of (secondThirdBytes, source2) \<Rightarrow>
             Inr (push_bit 16 (take_bit 5 firstByte) OR secondThirdBytes, source2))) \<and>
     (bit firstByte 7 \<and> bit firstByte 6 \<and> bit firstByte 5 \<longrightarrow>
        parseECIValue source = Inl (Error '''')))"
  by (simp add: parseECIValue_def prefix_0 prefix_10 prefix_110 low_7 low_6 low_5
      split: prod.splits)

theorem parseECIValue_prefix_witness:
  "parseECIValue (new_BitSource [0x45]) =
     Inr (0x45, \<lparr>bs_bytes = [0x45], bs_bitOffset = 0, bs_byteOffset = 1\<rparr>) \<and>
   parseECIValue (new_BitSource [0x85, 0x12]) =
     Inr (0x512, \<lparr>bs_bytes = [0x85, 0x12], bs_bitOffset = 0, bs_byteOffset = 2\<rparr>) \<and>
   parseECIValue (new_BitSource [0xC5, 0x12, 0x34]) =
     Inr (0x51234, \<lparr>bs_bytes = [0xC5, 0x12, 0x34], bs_bitOffset = 0, bs_byteOffset = 3\<rparr>) \<and>
   parseECIValue (new_BitSource [0xE5, 0x12, 0x34]) = Inl (Error '''')"
proof -
  have a: "BitSource_read 8 (new_BitSource [0x45]) =
      (0x45, \<lparr>bs_bytes = [0x45], bs_bitOffset = 0, bs_byteOffset = 1\<rparr>)"
    by code_simp
  have b: "BitSource_read 8 (new_BitSource [0x85, 0x12]) =
      (0x85, \<lparr>bs_bytes = [0x85, 0x12], bs_bitOffset = 0, bs_byteOffset = 1\<rparr>)"
    "BitSource_read 8 \<lparr>bs_bytes = [0x85, 0x12], bs_bitOffset = 0, bs_byteOffset = Suc 0\<rparr> =
      (0x12, \<lparr>bs_bytes = [0x85, 0x12], bs_bitOffset = 0, bs_byteOffset = 2\<rparr>)"
    by code_simp+
  have c: "BitSource_read 8 (new_BitSource [0xC5, 0x12, 0x34]) =
      (0xC5, \<lparr>bs_bytes = [0xC5, 0x12, 0x34], bs_bitOffset = 0, bs_byteOffset = 1\<rparr>)"
    "BitSource_read 16 \<lparr>bs_bytes = [0xC5, 0x12, 0x34], bs_bitOffset = 0, bs_byteOffset = Suc 0\<rparr> =
      (0x1234, \<lparr>bs_bytes = [0xC5, 0x12, 0x34], bs_bitOffset = 0, bs_byteOffset = 3\<rparr>)"
    by code_simp+
  have d: "BitSource_read 8 (new_BitSource [0xE5, 0x12, 0x34]) =
      (0xE5, \<lparr>bs_bytes = [0xE5, 0x12, 0x34], bs_bitOffset = 0, bs_byteOffset = 1\<rparr>)"
    by code_simp
  show ?thesis
    using parseECIValue_prefix [of "new_BitSource [0x45]"]
      parseECIValue_prefix [of "new_BitSource [0x85, 0x12]"]
      parseECIValue_prefix [of "new_BitSource [0xC5, 0x12, 0x34]"]
      parseECIValue_prefix [of "new_BitSource [0xE5, 0x12, 0x34]"]
    by (simp add: a b c d)
qed

section \<open>Built-in text encoder\<close>

text \<open>
  C9: with the charset ASCII and with the charset ISO-8859-1 the built-in encoder returns
  bytes and never an error, one byte for each character of the content: the byte 0x3F when
  the character's code is above the charset's maximum (0x7F, 0xFF), and the code itself
  otherwise.
\<close>

theorem builtin_encoder_replaces:
  "encode_builtin textEncoder content ASCII = Inr (getCharCodes content 0x7f) \<and>
   encode_builtin textEncoder content ISO_8859_1 = Inr (getCharCodes content 0xff) \<and>
   length (getCharCodes content maxCode) = length (js_characters content) \<and>
   (\<forall>i < length (js_characters content).
      getCharCodes content maxCode ! i =
        (if charCodeAt0 (js_characters content ! i) > maxCode then 0x3f
         else of_nat (charCodeAt0 (js_characters content ! i))))"
  by (simp add: encode_builtin_def getCharCodes_def Let_def)

theorem builtin_encoder_replaces_witness:
  "(1::nat) < length (js_characters [0x41, 0xe9, 0x4e2d]) \<and>
   charCodeAt0 (js_characters [0x41, 0xe9, 0x4e2d] ! 1) > 0x7f \<and>
   getCharCodes [0x41, 0xe9, 0x4e2d] 0x7f ! 1 = 0x3f \<and>
   encode_builtin (\<lambda>s. []) [0x41, 0xe9, 0x4e2d] ASCII = Inr (getCharCodes [0x41, 0xe9, 0x4e2d] 0x7f)"
proof -
  have c: "js_characters [0x41, 0xe9, 0x4e2d] = [[0x41], [0xe9], [0x4e2d]]"
    by (simp add: is_high_surrogate_def)
  show ?thesis
    using builtin_encoder_replaces [of "\<lambda>s. []" "[0x41, 0xe9, 0x4e2d]" "0x7f"]
    by (simp add: c)
qed

section \<open>Histogram binarization\<close>

text \<open>
  C5: whenever the two dominant peaks are at most two buckets apart, the binarization
  fails with an error. The comment in \<open>calculateBlackPoint\<close> announces the same (``throw
  rather than waste time trying to decode the image''), but the statement below it is
  \<open>return -1\<close>, and \<open>histogram\<close> only skips the thresholding when the black point is not
  positive. On a 5 by 5 image of the two luminances 100 and 110 the peaks are the buckets
  12 and 13, the black point is -1, and \<open>histogram\<close> returns a matrix with no bit set
  instead of failing.
\<close>

theorem histogram_low_contrast_no_error:
  "dominantPeaks (sample_buckets two_tone_image 5 5) = (12, 13, 8) \<and>
   calculateBlackPoint (sample_buckets two_tone_image 5 5) = - 1 \<and>
   histogram two_tone_image 5 5 = Inr (new_BitMatrix 5 5)"
proof -
  have "dominantPeaks (sample_buckets two_tone_image 5 5) = (12, 13, 8)" by code_simp
  moreover have "calculateBlackPoint (sample_buckets two_tone_image 5 5) = - 1" by code_simp
  moreover have "histogram two_tone_image 5 5 = Inr (new_BitMatrix 5 5)" by code_simp
  ultimately show ?thesis by simp
qed

text \<open>
  The image is not special: for every input whose peaks are that close the black point is
  -1 and the result is the empty matrix, so this exit of \<open>calculateBlackPoint\<close> never
  reaches the caller as a failure.
\<close>

lemma histogram_low_contrast_blank:
  assumes "dominantPeaks (sample_buckets luminances width height) =
             (firstPeak, secondPeak, maxBucketCount)"
    and "int secondPeak - int firstPeak \<le> 2"
  shows "calculateBlackPoint (sample_buckets luminances width height) = - 1 \<and>
         histogram luminances width height = Inr (new_BitMatrix width height) \<and>
         (\<forall>x y. \<not> bm_get (new_BitMatrix width height) x y)"
  using assms
  by (simp add: calculateBlackPoint_def histogram_def Let_def LUMINANCE_BUCKETS_def LUMINANCE_BITS_def
      bm_get_def new_BitMatrix_def)

section \<open>Symbol size\<close>




end
